theory Spec2Isabelle
  imports Main
begin

section \<open>The overlay visibility controller of \<open>Overlay.tsx\<close>\<close>

text \<open>
  The component \<open>Overlay\<close> keeps four pieces of state: the React states
  \<open>commandAmbassador\<close> and \<open>visibleOption\<close>, and the refs \<open>timeoutRef\<close> and
  \<open>awakingRef\<close>. Its callbacks are modelled as functions from state to state. The
  JavaScript timer queue, the clock and the calls of the prop \<open>wake\<close> are made explicit
  as further fields of the same record, so that a whole run of the component is a value.
\<close>

subsection \<open>Data\<close>

text \<open>\<open>OverlayKey\<close>: the keys of \<open>overlayOptions\<close>; \<open>undefined\<close> is \<open>None\<close>.\<close>

datatype OverlayKey = KeyWelcome | KeyAmbassadors | KeySettings

text \<open>
  What \<open>bodyClick\<close> reads of an element returned by \<open>document.elementsFromPoint\<close>:
  whether it is \<open>document.body\<close>, and two properties of its computed style.
\<close>

record element =
  isBody :: bool
  backgroundImage :: string
  backgroundColor :: string

text \<open>
  A timer handle is the positive integer that \<open>setTimeout\<close> returns. A pending timer is
  a pair of its handle and the time at which it is due. Every timer of this component
  has the same callback, \<open>setVisibleOption(undefined)\<close>, so the callback is not stored.
\<close>

record overlay =
  commandAmbassador :: "string option"
  visibleOption :: "OverlayKey option"
  timeoutRef :: "nat option"
  awakingRef :: bool
  timers :: "(nat \<times> nat) list"
  nextHandle :: nat
  now :: nat
  wakeCalls :: "nat list"
  fired :: "nat list"

text \<open>The component as first rendered, at time 0, with no timer and no call of \<open>wake\<close>.\<close>

definition initial :: overlay where
  "initial = \<lparr> commandAmbassador = None, visibleOption = None, timeoutRef = None,
     awakingRef = False, timers = [], nextHandle = 1, now = 0, wakeCalls = [],
     fired = [] \<rparr>"

subsection \<open>The timer queue and the wake effect\<close>

definition commandDelay :: nat where
  "commandDelay = 8000"

text \<open>\<open>setTimeout(callback, delay)\<close>: a fresh handle, due \<open>delay\<close> from now.\<close>

definition setTimeout :: "nat \<Rightarrow> overlay \<Rightarrow> nat \<times> overlay" where
  "setTimeout delay s =
     (nextHandle s,
      s\<lparr>timers := timers s @ [(nextHandle s, now s + delay)],
        nextHandle := Suc (nextHandle s)\<rparr>)"

text \<open>\<open>clearTimeout(handle)\<close>: the timer of that handle, if pending, is removed.\<close>

definition clearTimeout :: "nat \<Rightarrow> overlay \<Rightarrow> overlay" where
  "clearTimeout h s = s\<lparr>timers := filter (\<lambda>t. fst t \<noteq> h) (timers s)\<rparr>"

text \<open>
  The statement \<open>if (timeoutRef.current) clearTimeout(timeoutRef.current)\<close>, which the
  source has three times. \<open>undefined\<close> and \<open>0\<close> are falsy.
\<close>

definition clearTimeoutRef :: "overlay \<Rightarrow> overlay" where
  "clearTimeoutRef s =
     (case timeoutRef s of
        None \<Rightarrow> s
      | Some h \<Rightarrow> if h \<noteq> 0 then clearTimeout h s else s)"

text \<open>The timer's callback, \<open>() => { setVisibleOption(undefined) }\<close>; the run is logged.\<close>

definition timerCallback :: "nat \<Rightarrow> overlay \<Rightarrow> overlay" where
  "timerCallback h s = s\<lparr>visibleOption := None, fired := fired s @ [h]\<rparr>"

text \<open>
  Time passes by \<open>d\<close> units with no other event: every pending timer that is due by then
  leaves the queue and its callback runs.
\<close>

definition advance :: "nat \<Rightarrow> overlay \<Rightarrow> overlay" where
  "advance d s =
     (let t = now s + d;
          due = filter (\<lambda>p. snd p \<le> t) (timers s);
          rest = filter (\<lambda>p. \<not> snd p \<le> t) (timers s)
      in fold (\<lambda>p. timerCallback (fst p)) due (s\<lparr>timers := rest, now := t\<rparr>))"

text \<open>The prop \<open>wake(time)\<close> is external; the model records its argument.\<close>

definition wake :: "nat \<Rightarrow> overlay \<Rightarrow> overlay" where
  "wake time s = s\<lparr>wakeCalls := wakeCalls s @ [time]\<rparr>"

subsection \<open>The chat command callback\<close>

text \<open>
  The part of the callback from \<open>// Show the card\<close> to its end: it shows the panel,
  replaces the dismiss timer, sets \<open>awakingRef\<close> and calls \<open>wake\<close>.
\<close>

definition showCard :: "string \<Rightarrow> overlay \<Rightarrow> overlay" where
  "showCard command s =
     (let s1 = s\<lparr>visibleOption :=
                   Some (if command = ''welcome'' then KeyWelcome else KeyAmbassadors)\<rparr>;
          s2 = clearTimeoutRef s1;
          (h, s3) = setTimeout commandDelay s2;
          s4 = s3\<lparr>timeoutRef := Some h\<rparr>;
          s5 = s4\<lparr>awakingRef := True\<rparr>
      in wake commandDelay s5)"

text \<open>
  The callback given to \<open>useChatCommand\<close>. \<open>isAmbassadorKey\<close> is imported from
  \<open>utils/ambassadors\<close> and is a parameter here; \<open>disableChatPopup\<close> is
  \<open>settings.disableChatPopup.value\<close>.
\<close>

definition onCommand :: "(string \<Rightarrow> bool) \<Rightarrow> bool \<Rightarrow> string \<Rightarrow> overlay \<Rightarrow> overlay" where
  "onCommand isAmbassadorKey disableChatPopup command s =
     (if \<not> disableChatPopup then
        (if isAmbassadorKey command
           then showCard command (s\<lparr>commandAmbassador := Some command\<rparr>)
         else if command \<noteq> ''welcome'' then s
         else showCard command s)
      else s)"

subsection \<open>Unmounting, interaction and body clicks\<close>

text \<open>The cleanup of the first effect, run when the component unmounts.\<close>

definition unmount :: "overlay \<Rightarrow> overlay" where
  "unmount s = clearTimeoutRef s"

text \<open>The callback registered with \<open>awoken.add\<close>.\<close>

definition onInteraction :: "overlay \<Rightarrow> overlay" where
  "onInteraction s =
     (if awakingRef s then s\<lparr>awakingRef := False\<rparr> else clearTimeoutRef s)"

text \<open>The test of \<open>bodyClick\<close> on the computed style of one element.\<close>

definition hasBackground :: "element \<Rightarrow> bool" where
  "hasBackground e =
     (backgroundImage e \<noteq> ''none'' \<or> backgroundColor e \<noteq> ''rgba(0, 0, 0, 0)'')"

text \<open>
  The loop of \<open>bodyClick\<close>: \<open>False\<close> when it leaves the function by \<open>return\<close>, \<open>True\<close>
  when it ends by \<open>break\<close> or by running out of elements.
\<close>

fun bodyClickLoop :: "element list \<Rightarrow> bool" where
  "bodyClickLoop [] = True"
| "bodyClickLoop (e # es) =
     (if isBody e then True
      else if hasBackground e then False
      else bodyClickLoop es)"

definition bodyClick :: "element list \<Rightarrow> overlay \<Rightarrow> overlay" where
  "bodyClick elements s =
     (if bodyClickLoop elements then s\<lparr>visibleOption := None\<rparr> else s)"

subsection \<open>Runs of the component\<close>

text \<open>
  The events the component reacts to. \<open>SetVisibleOption\<close> is the prop \<open>onClick\<close> handed
  to \<open>Buttons\<close>, which is the state setter itself.
\<close>

datatype event =
    Command bool string
  | Interaction
  | BodyClick "element list"
  | SetVisibleOption "OverlayKey option"
  | Wait nat
  | Unmount

fun step :: "(string \<Rightarrow> bool) \<Rightarrow> event \<Rightarrow> overlay \<Rightarrow> overlay" where
  "step isAmbassadorKey (Command disableChatPopup command) s =
     onCommand isAmbassadorKey disableChatPopup command s"
| "step isAmbassadorKey Interaction s = onInteraction s"
| "step isAmbassadorKey (BodyClick elements) s = bodyClick elements s"
| "step isAmbassadorKey (SetVisibleOption k) s = s\<lparr>visibleOption := k\<rparr>"
| "step isAmbassadorKey (Wait d) s = advance d s"
| "step isAmbassadorKey Unmount s = unmount s"

definition run :: "(string \<Rightarrow> bool) \<Rightarrow> event list \<Rightarrow> overlay \<Rightarrow> overlay" where
  "run isAmbassadorKey evs s = fold (step isAmbassadorKey) evs s"

inductive reachable :: "(string \<Rightarrow> bool) \<Rightarrow> overlay \<Rightarrow> bool"
  for isAmbassadorKey :: "string \<Rightarrow> bool" where
  reachable_initial: "reachable isAmbassadorKey initial"
| reachable_step:
    "reachable isAmbassadorKey s \<Longrightarrow> reachable isAmbassadorKey (step isAmbassadorKey e s)"

text \<open>
  The invariant of the timer queue: handles are positive, and a pending timer is alone
  in the queue and is the one \<open>timeoutRef\<close> holds.
\<close>

definition timer_inv :: "overlay \<Rightarrow> bool" where
  "timer_inv s =
     (0 < nextHandle s \<and>
      (timers s = [] \<or>
       (\<exists>h w. timers s = [(h, w)] \<and> timeoutRef s = Some h \<and> h \<noteq> 0)))"

text \<open>
  The command subject that a run records: the last command that was an ambassador key
  and arrived while the popup was enabled.
\<close>

fun recorded :: "(string \<Rightarrow> bool) \<Rightarrow> string option \<Rightarrow> event \<Rightarrow> string option" where
  "recorded isAmbassadorKey acc (Command disableChatPopup command) =
     (if \<not> disableChatPopup \<and> isAmbassadorKey command then Some command else acc)"
| "recorded isAmbassadorKey acc _ = acc"

text \<open>
  The words of the specification for a surface under the click. A colour is fully
  transparent when its alpha is 0, which a computed style writes \<open>rgba(r, g, b, 0)\<close>; a
  surface is non-transparent when it has a background image or a background colour that
  is not fully transparent. These two definitions follow the specification, not the code.
\<close>

definition spec_fullyTransparent :: "string \<Rightarrow> bool" where
  "spec_fullyTransparent c =
     (take 5 c = ''rgba('' \<and> drop (length c - 4) c = '', 0)'')"

definition spec_nonTransparent :: "element \<Rightarrow> bool" where
  "spec_nonTransparent e =
     (backgroundImage e \<noteq> ''none'' \<or> \<not> spec_fullyTransparent (backgroundColor e))"

section \<open>Properties\<close>

subsection \<open>The timer queue\<close>

lemma timers_nil_upd: "timers s = [] \<Longrightarrow> s\<lparr>timers := []\<rparr> = s"
  by (cases s) simp

lemma clearTimeoutRef_clears:
  "timer_inv s \<Longrightarrow> clearTimeoutRef s = s\<lparr>timers := []\<rparr>"
  by (auto simp: timer_inv_def clearTimeoutRef_def clearTimeout_def timers_nil_upd split: option.splits)

lemma clearTimeoutRef_inv: "timer_inv s \<Longrightarrow> timer_inv (clearTimeoutRef s)"
  by (simp add: clearTimeoutRef_clears) (simp add: timer_inv_def)

lemma showCard_eq:
  "timer_inv s \<Longrightarrow> showCard c s =
     s\<lparr>visibleOption := Some (if c = ''welcome'' then KeyWelcome else KeyAmbassadors),
       timers := [(nextHandle s, now s + 8000)],
       nextHandle := Suc (nextHandle s),
       timeoutRef := Some (nextHandle s),
       awakingRef := True,
       wakeCalls := wakeCalls s @ [8000]\<rparr>"
proof -
  assume inv: "timer_inv s"
  let ?s1 = "s\<lparr>visibleOption := Some (if c = ''welcome'' then KeyWelcome else KeyAmbassadors)\<rparr>"
  have "timer_inv ?s1" using inv by (simp add: timer_inv_def)
  then have "clearTimeoutRef ?s1 = ?s1\<lparr>timers := []\<rparr>" by (rule clearTimeoutRef_clears)
  then show ?thesis
    by (simp add: showCard_def setTimeout_def wake_def commandDelay_def Let_def)
qed

lemma showCard_inv: "timer_inv s \<Longrightarrow> timer_inv (showCard c s)"
  by (simp add: showCard_eq) (simp add: timer_inv_def)

lemma onCommand_inv: "timer_inv s \<Longrightarrow> timer_inv (onCommand K dis c s)"
proof -
  assume inv: "timer_inv s"
  then have "timer_inv (s\<lparr>commandAmbassador := Some c\<rparr>)" by (simp add: timer_inv_def)
  with inv show ?thesis by (simp add: onCommand_def showCard_inv)
qed

lemma onInteraction_inv: "timer_inv s \<Longrightarrow> timer_inv (onInteraction s)"
  by (auto simp: onInteraction_def clearTimeoutRef_inv) (simp add: timer_inv_def)

lemma bodyClick_inv: "timer_inv s \<Longrightarrow> timer_inv (bodyClick els s)"
  by (simp add: bodyClick_def timer_inv_def)

lemma advance_nil: "timers s = [] \<Longrightarrow> advance d s = s\<lparr>now := now s + d\<rparr>"
  by (simp add: advance_def Let_def timers_nil_upd)

lemma advance_single:
  "timers s = [(h, w)] \<Longrightarrow> advance d s =
     (if w \<le> now s + d
      then s\<lparr>timers := [], now := now s + d, visibleOption := None, fired := fired s @ [h]\<rparr>
      else s\<lparr>now := now s + d\<rparr>)"
  by (cases s) (simp add: advance_def Let_def timerCallback_def)

lemma advance_inv: "timer_inv s \<Longrightarrow> timer_inv (advance d s)"
proof -
  assume inv: "timer_inv s"
  show ?thesis
  proof (cases "timers s")
    case Nil
    with inv show ?thesis by (simp add: advance_nil timer_inv_def)
  next
    case (Cons p ps)
    with inv obtain h w where hw: "timers s = [(h, w)]" "timeoutRef s = Some h" "h \<noteq> 0"
      by (auto simp: timer_inv_def)
    from inv have "0 < nextHandle s" by (simp add: timer_inv_def)
    with hw show ?thesis by (simp add: advance_single timer_inv_def)
  qed
qed

lemma unmount_inv: "timer_inv s \<Longrightarrow> timer_inv (unmount s)"
  by (simp add: unmount_def clearTimeoutRef_inv)

lemma step_inv: "timer_inv s \<Longrightarrow> timer_inv (step K e s)"
  by (cases e) (simp_all add: onCommand_inv onInteraction_inv bodyClick_inv advance_inv unmount_inv, simp add: timer_inv_def)

lemma initial_inv: "timer_inv initial"
  by (simp add: timer_inv_def initial_def)

lemma reachable_inv: "reachable K s \<Longrightarrow> timer_inv s"
  by (induction rule: reachable.induct) (simp_all add: initial_inv step_inv)

lemma onCommand_eq:
  assumes "timer_inv s" and "K c \<or> c = ''welcome''"
  shows "onCommand K False c s =
     s\<lparr>commandAmbassador := (if K c then Some c else commandAmbassador s),
       visibleOption := Some (if c = ''welcome'' then KeyWelcome else KeyAmbassadors),
       timers := [(nextHandle s, now s + 8000)],
       nextHandle := Suc (nextHandle s),
       timeoutRef := Some (nextHandle s),
       awakingRef := True,
       wakeCalls := wakeCalls s @ [8000]\<rparr>"
proof (cases "K c")
  case True
  from assms(1) have "timer_inv (s\<lparr>commandAmbassador := Some c\<rparr>)"
    by (simp add: timer_inv_def)
  with True show ?thesis by (simp add: onCommand_def showCard_eq)
next
  case False
  with assms(2) have "c = ''welcome''" by simp
  with False assms(1) show ?thesis by (cases s) (simp add: onCommand_def showCard_eq)
qed

subsection \<open>Recognized commands\<close>

text \<open>
  Claim C1. In a state the component can reach, a command that is an ambassador key or
  the literal \<open>welcome\<close>, received while \<open>disableChatPopup\<close> is unset, shows the
  panel of the command (the welcome panel for \<open>welcome\<close>, the ambassadors panel
  otherwise), leaves exactly one pending timer, the new one, due 8000 units from now,
  stores its handle in \<open>timeoutRef\<close>, sets \<open>awakingRef\<close> and calls \<open>wake\<close> once,
  with 8000. With no further event the panel stays for any wait shorter than 8000 units
  and no timer fires; after 8000 units or more the new timer, and only it, has fired and
  \<open>visibleOption\<close> is \<open>undefined\<close>.
\<close>

theorem onCommand_recognized:
  assumes "reachable K s" and "K c \<or> c = ''welcome''"
  shows "visibleOption (onCommand K False c s) =
           Some (if c = ''welcome'' then KeyWelcome else KeyAmbassadors)
       \<and> timers (onCommand K False c s) = [(nextHandle s, now s + 8000)]
       \<and> timeoutRef (onCommand K False c s) = Some (nextHandle s)
       \<and> awakingRef (onCommand K False c s)
       \<and> wakeCalls (onCommand K False c s) = wakeCalls s @ [8000]
       \<and> (\<forall>d<8000. visibleOption (advance d (onCommand K False c s)) =
                      visibleOption (onCommand K False c s)
                  \<and> fired (advance d (onCommand K False c s)) = fired s)
       \<and> (\<forall>d\<ge>8000. visibleOption (advance d (onCommand K False c s)) = None
                  \<and> fired (advance d (onCommand K False c s)) = fired s @ [nextHandle s])"
proof -
  from assms(1) have inv: "timer_inv s" by (rule reachable_inv)
  have eq: "onCommand K False c s =
     s\<lparr>commandAmbassador := (if K c then Some c else commandAmbassador s),
       visibleOption := Some (if c = ''welcome'' then KeyWelcome else KeyAmbassadors),
       timers := [(nextHandle s, now s + 8000)],
       nextHandle := Suc (nextHandle s),
       timeoutRef := Some (nextHandle s),
       awakingRef := True,
       wakeCalls := wakeCalls s @ [8000]\<rparr>"
    using inv assms(2) by (rule onCommand_eq)
  have t: "timers (onCommand K False c s) = [(nextHandle s, now s + 8000)]"
    by (simp add: eq)
  have n: "now (onCommand K False c s) = now s" by (simp add: eq)
  have f: "fired (onCommand K False c s) = fired s" by (simp add: eq)
  have early: "\<forall>d<8000. visibleOption (advance d (onCommand K False c s)) =
                      visibleOption (onCommand K False c s)
                  \<and> fired (advance d (onCommand K False c s)) = fired s"
    by (simp add: advance_single [OF t] n f)
  have late: "\<forall>d\<ge>8000. visibleOption (advance d (onCommand K False c s)) = None
                  \<and> fired (advance d (onCommand K False c s)) = fired s @ [nextHandle s]"
    by (simp add: advance_single [OF t] n f)
  from early late show ?thesis by (simp add: eq)
qed

theorem onCommand_recognized_witness:
  "reachable ((=) ''stompy'') initial
   \<and> visibleOption (onCommand ((=) ''stompy'') False ''welcome'' initial) = Some KeyWelcome
   \<and> timers (onCommand ((=) ''stompy'') False ''welcome'' initial) = [(1, 8000)]
   \<and> wakeCalls (onCommand ((=) ''stompy'') False ''welcome'' initial) = [8000]
   \<and> visibleOption (advance 7999 (onCommand ((=) ''stompy'') False ''welcome'' initial)) = Some KeyWelcome
   \<and> visibleOption (advance 8000 (onCommand ((=) ''stompy'') False ''welcome'' initial)) = None"
  using onCommand_recognized [of "(=) ''stompy''" initial "''welcome''"] reachable_initial [of "(=) ''stompy''"]
  by (simp add: initial_def)

lemma clearTimeoutRef_fields:
  "visibleOption (clearTimeoutRef s) = visibleOption s"
  "commandAmbassador (clearTimeoutRef s) = commandAmbassador s"
  "awakingRef (clearTimeoutRef s) = awakingRef s"
  "timeoutRef (clearTimeoutRef s) = timeoutRef s"
  by (simp_all add: clearTimeoutRef_def clearTimeout_def split: option.splits)

lemma showCard_fields:
  "visibleOption (showCard c s) = Some (if c = ''welcome'' then KeyWelcome else KeyAmbassadors)"
  "commandAmbassador (showCard c s) = commandAmbassador s"
  by (simp_all add: showCard_def setTimeout_def wake_def Let_def clearTimeoutRef_fields)

subsection \<open>Which panel a command shows\<close>

text \<open>
  Claim C2 says that a command that is a known ambassador key always shows the
  ambassadors panel. Where the resolver accepts the word \<open>welcome\<close> as a key, the command
  \<open>welcome\<close> is recorded as the command subject and yet the welcome panel is shown: the
  panel is chosen by the test \<open>command === 'welcome'\<close> alone.
\<close>

theorem onCommand_welcome_key_counterexample:
  "commandAmbassador (onCommand ((=) ''welcome'') False ''welcome'' initial) = Some ''welcome''
   \<and> visibleOption (onCommand ((=) ''welcome'') False ''welcome'' initial) = Some KeyWelcome
   \<and> visibleOption (onCommand ((=) ''welcome'') False ''welcome'' initial) \<noteq> Some KeyAmbassadors"
  by (simp add: onCommand_def showCard_fields initial_def)

text \<open>
  Claim C2, amended. With \<open>disableChatPopup\<close> unset, for every resolver and every state:
  the command subject becomes the command when the command is a known ambassador key and
  is unchanged otherwise; a known key other than \<open>welcome\<close> shows the ambassadors panel;
  the literal \<open>welcome\<close> shows the welcome panel, whether or not it is a key.
\<close>

theorem onCommand_panel:
  "commandAmbassador (onCommand K False c s) = (if K c then Some c else commandAmbassador s)
   \<and> (K c \<and> c \<noteq> ''welcome'' \<longrightarrow> visibleOption (onCommand K False c s) = Some KeyAmbassadors)
   \<and> (c = ''welcome'' \<longrightarrow> visibleOption (onCommand K False c s) = Some KeyWelcome)"
  by (simp add: onCommand_def showCard_fields)

theorem onCommand_panel_witness:
  "commandAmbassador (onCommand ((=) ''stompy'') False ''stompy'' initial) = Some ''stompy''
   \<and> visibleOption (onCommand ((=) ''stompy'') False ''stompy'' initial) = Some KeyAmbassadors
   \<and> commandAmbassador (onCommand ((=) ''stompy'') False ''welcome'' initial) = None
   \<and> visibleOption (onCommand ((=) ''stompy'') False ''welcome'' initial) = Some KeyWelcome"
  using onCommand_panel [of "(=) ''stompy''" "''stompy''" initial]
    onCommand_panel [of "(=) ''stompy''" "''welcome''" initial]
  by (simp add: initial_def)

subsection \<open>Commands that do nothing\<close>

text \<open>
  Claim C5. A command that is neither a known ambassador key nor the literal \<open>welcome\<close>
  leaves the whole state as it was, whatever \<open>disableChatPopup\<close> is: the panel, the command
  subject, \<open>timeoutRef\<close>, \<open>awakingRef\<close>, the timer queue and the calls of \<open>wake\<close>.
\<close>

theorem onCommand_unrecognized:
  "\<not> K c \<Longrightarrow> c \<noteq> ''welcome'' \<Longrightarrow> onCommand K dis c s = s"
  by (simp add: onCommand_def)

theorem onCommand_unrecognized_witness:
  "\<not> ((=) ''stompy'') ''hello'' \<and> ''hello'' \<noteq> ''welcome''
   \<and> onCommand ((=) ''stompy'') False ''hello''
        (onCommand ((=) ''stompy'') False ''stompy'' initial)
      = onCommand ((=) ''stompy'') False ''stompy'' initial"
  using onCommand_unrecognized [of "(=) ''stompy''" "''hello''" False
          "onCommand ((=) ''stompy'') False ''stompy'' initial"]
  by simp

text \<open>
  Claim C7. With \<open>disableChatPopup\<close> set, the chat command callback leaves the whole state
  as it was for every command: the panel, the command subject, \<open>awakingRef\<close>, the timer
  and the calls of \<open>wake\<close>.
\<close>

theorem onCommand_disabled: "onCommand K True c s = s"
  by (simp add: onCommand_def)

theorem onCommand_disabled_witness:
  "onCommand ((=) ''stompy'') True ''stompy'' initial = initial
   \<and> onCommand ((=) ''stompy'') True ''welcome'' initial = initial"
  using onCommand_disabled [of "(=) ''stompy''" "''stompy''" initial]
    onCommand_disabled [of "(=) ''stompy''" "''welcome''" initial]
  by simp

subsection \<open>Body clicks\<close>

lemma bodyClickLoop_iff:
  "bodyClickLoop els = (\<forall>e \<in> set (takeWhile (\<lambda>e. \<not> isBody e) els). \<not> hasBackground e)"
  by (induction els) auto

lemma spec_nonTransparent_hasBackground: "spec_nonTransparent e \<Longrightarrow> hasBackground e"
proof -
  have "spec_fullyTransparent ''rgba(0, 0, 0, 0)''"
    by (simp add: spec_fullyTransparent_def)
  moreover assume "spec_nonTransparent e"
  ultimately show ?thesis
    by (auto simp: spec_nonTransparent_def hasBackground_def)
qed

lemma bodyClick_nonTransparent_ignored:
  "\<exists>e \<in> set (takeWhile (\<lambda>e. \<not> isBody e) els). spec_nonTransparent e \<Longrightarrow>
     bodyClick els s = s"
  by (auto simp: bodyClick_def bodyClickLoop_iff dest: spec_nonTransparent_hasBackground)

text \<open>
  Claim C6 says that a click is an outside click when no surface before
  \<open>document.body\<close> has a background image or a background colour other than fully
  transparent. A surface with no background image and the colour
  \<open>rgba(255, 255, 255, 0)\<close> is fully transparent, yet a click through it onto the body is
  ignored and the welcome panel stays: the code compares the computed colour with the
  one string \<open>rgba(0, 0, 0, 0)\<close>.
\<close>

theorem bodyClick_transparent_counterexample:
  "\<not> spec_nonTransparent
       \<lparr>isBody = False, backgroundImage = ''none'', backgroundColor = ''rgba(255, 255, 255, 0)''\<rparr>
   \<and> visibleOption (onCommand ((=) ''stompy'') False ''welcome'' initial) = Some KeyWelcome
   \<and> visibleOption (bodyClick
        [\<lparr>isBody = False, backgroundImage = ''none'', backgroundColor = ''rgba(255, 255, 255, 0)''\<rparr>,
         \<lparr>isBody = True, backgroundImage = ''none'', backgroundColor = ''rgba(0, 0, 0, 0)''\<rparr>]
        (onCommand ((=) ''stompy'') False ''welcome'' initial)) = Some KeyWelcome"
  by (simp add: spec_nonTransparent_def spec_fullyTransparent_def bodyClick_def
      hasBackground_def onCommand_def showCard_fields)

text \<open>
  Claim C6, amended. For every list of elements under the click, topmost first: when an
  element before \<open>document.body\<close> has a computed background image other than the string
  \<open>none\<close> or a computed background colour other than the string \<open>rgba(0, 0, 0, 0)\<close>,
  the click changes nothing; when every element before \<open>document.body\<close> has the image
  \<open>none\<close> and the colour \<open>rgba(0, 0, 0, 0)\<close>, \<open>visibleOption\<close> becomes \<open>undefined\<close>
  and nothing else changes. In both cases the timer queue and \<open>timeoutRef\<close> are
  untouched.
\<close>

theorem bodyClick_outside:
  "((\<exists>e \<in> set (takeWhile (\<lambda>e. \<not> isBody e) els).
        backgroundImage e \<noteq> ''none'' \<or> backgroundColor e \<noteq> ''rgba(0, 0, 0, 0)'') \<longrightarrow>
      bodyClick els s = s)
   \<and> ((\<forall>e \<in> set (takeWhile (\<lambda>e. \<not> isBody e) els).
        backgroundImage e = ''none'' \<and> backgroundColor e = ''rgba(0, 0, 0, 0)'') \<longrightarrow>
      bodyClick els s = s\<lparr>visibleOption := None\<rparr>)
   \<and> timers (bodyClick els s) = timers s
   \<and> timeoutRef (bodyClick els s) = timeoutRef s"
  by (auto simp: bodyClick_def bodyClickLoop_iff hasBackground_def)

theorem bodyClick_outside_witness:
  "bodyClick
        [\<lparr>isBody = False, backgroundImage = ''linear-gradient(rgb(255, 0, 0), rgb(0, 0, 255))'',
           backgroundColor = ''rgba(0, 0, 0, 0)''\<rparr>,
         \<lparr>isBody = True, backgroundImage = ''none'', backgroundColor = ''rgba(0, 0, 0, 0)''\<rparr>]
        (onCommand ((=) ''stompy'') False ''welcome'' initial)
      = onCommand ((=) ''stompy'') False ''welcome'' initial
   \<and> bodyClick
        [\<lparr>isBody = False, backgroundImage = ''none'', backgroundColor = ''rgba(0, 0, 0, 0)''\<rparr>,
         \<lparr>isBody = False, backgroundImage = ''none'', backgroundColor = ''rgb(255, 255, 255)''\<rparr>,
         \<lparr>isBody = True, backgroundImage = ''none'', backgroundColor = ''rgba(0, 0, 0, 0)''\<rparr>]
        (onCommand ((=) ''stompy'') False ''welcome'' initial)
      = onCommand ((=) ''stompy'') False ''welcome'' initial
   \<and> bodyClick
        [\<lparr>isBody = False, backgroundImage = ''none'', backgroundColor = ''rgba(0, 0, 0, 0)''\<rparr>,
         \<lparr>isBody = True, backgroundImage = ''none'', backgroundColor = ''rgba(0, 0, 0, 0)''\<rparr>,
         \<lparr>isBody = False, backgroundImage = ''none'', backgroundColor = ''rgb(255, 255, 255)''\<rparr>]
        (onCommand ((=) ''stompy'') False ''welcome'' initial)
      = (onCommand ((=) ''stompy'') False ''welcome'' initial)\<lparr>visibleOption := None\<rparr>"
proof -
  let ?s1 = "onCommand ((=) ''stompy'') False ''welcome'' initial"
  let ?clear = "\<lparr>isBody = False, backgroundImage = ''none'', backgroundColor = ''rgba(0, 0, 0, 0)''\<rparr>"
  let ?image = "\<lparr>isBody = False,
      backgroundImage = ''linear-gradient(rgb(255, 0, 0), rgb(0, 0, 255))'',
      backgroundColor = ''rgba(0, 0, 0, 0)''\<rparr>"
  let ?white = "\<lparr>isBody = False, backgroundImage = ''none'', backgroundColor = ''rgb(255, 255, 255)''\<rparr>"
  let ?body = "\<lparr>isBody = True, backgroundImage = ''none'', backgroundColor = ''rgba(0, 0, 0, 0)''\<rparr>"
  have a: "bodyClick [?image, ?body] ?s1 = ?s1"
    using bodyClick_outside [of "[?image, ?body]" ?s1] by simp
  have b: "bodyClick [?clear, ?white, ?body] ?s1 = ?s1"
    using bodyClick_outside [of "[?clear, ?white, ?body]" ?s1] by simp
  have c: "bodyClick [?clear, ?body, ?white] ?s1 = ?s1\<lparr>visibleOption := None\<rparr>"
    using bodyClick_outside [of "[?clear, ?body, ?white]" ?s1] by simp
  from a b c show ?thesis by simp
qed

subsection \<open>Interaction, rescheduling and unmounting\<close>

lemma onCommand_advance:
  assumes "timer_inv s" and "K c \<or> c = ''welcome''"
  shows "advance d (onCommand K False c s) =
     (if 8000 \<le> d
      then (onCommand K False c s)\<lparr>timers := [], now := now s + d, visibleOption := None,
             fired := fired s @ [nextHandle s]\<rparr>
      else (onCommand K False c s)\<lparr>now := now s + d\<rparr>)"
proof -
  have eq: "onCommand K False c s =
     s\<lparr>commandAmbassador := (if K c then Some c else commandAmbassador s),
       visibleOption := Some (if c = ''welcome'' then KeyWelcome else KeyAmbassadors),
       timers := [(nextHandle s, now s + 8000)],
       nextHandle := Suc (nextHandle s),
       timeoutRef := Some (nextHandle s),
       awakingRef := True,
       wakeCalls := wakeCalls s @ [8000]\<rparr>"
    using assms by (rule onCommand_eq)
  have t: "timers (onCommand K False c s) = [(nextHandle s, now s + 8000)]"
    by (simp add: eq)
  have n: "now (onCommand K False c s) = now s" by (simp add: eq)
  have f: "fired (onCommand K False c s) = fired s" by (simp add: eq)
  show ?thesis by (simp add: advance_single [OF t] n f)
qed

lemma onCommand_fields:
  assumes "timer_inv s" and "K c \<or> c = ''welcome''"
  shows "timers (onCommand K False c s) = [(nextHandle s, now s + 8000)]"
    and "nextHandle (onCommand K False c s) = Suc (nextHandle s)"
    and "now (onCommand K False c s) = now s"
    and "fired (onCommand K False c s) = fired s"
    and "awakingRef (onCommand K False c s)"
    and "visibleOption (onCommand K False c s) =
           Some (if c = ''welcome'' then KeyWelcome else KeyAmbassadors)"
  by (simp_all add: onCommand_eq [where K = K, OF assms])

text \<open>
  Claim C3. In a reachable state: when \<open>awakingRef\<close> is set, the interaction callback
  clears it and changes nothing else; when it is unset, the callback empties the timer
  queue and changes nothing else. So after a recognized command the first interaction
  leaves the new timer pending, and the second cancels it, after which no wait closes
  the panel.
\<close>

theorem onInteraction_awaking:
  assumes "reachable K s"
  shows "(awakingRef s \<longrightarrow> onInteraction s = s\<lparr>awakingRef := False\<rparr>)
     \<and> (\<not> awakingRef s \<longrightarrow> onInteraction s = s\<lparr>timers := []\<rparr>)
     \<and> (K c \<or> c = ''welcome'' \<longrightarrow>
          onInteraction (onCommand K False c s) = (onCommand K False c s)\<lparr>awakingRef := False\<rparr>
        \<and> timers (onInteraction (onCommand K False c s)) = [(nextHandle s, now s + 8000)]
        \<and> onInteraction (onInteraction (onCommand K False c s)) =
            (onCommand K False c s)\<lparr>awakingRef := False, timers := []\<rparr>
        \<and> (\<forall>d. visibleOption (advance d (onInteraction (onInteraction (onCommand K False c s)))) =
                 visibleOption (onCommand K False c s)))"
proof -
  from assms have inv: "timer_inv s" by (rule reachable_inv)
  have a: "awakingRef s \<longrightarrow> onInteraction s = s\<lparr>awakingRef := False\<rparr>"
    by (simp add: onInteraction_def)
  have b: "\<not> awakingRef s \<longrightarrow> onInteraction s = s\<lparr>timers := []\<rparr>"
    using inv by (simp add: onInteraction_def clearTimeoutRef_clears)
  have c: "onInteraction (onCommand K False c s) = (onCommand K False c s)\<lparr>awakingRef := False\<rparr>
        \<and> timers (onInteraction (onCommand K False c s)) = [(nextHandle s, now s + 8000)]
        \<and> onInteraction (onInteraction (onCommand K False c s)) =
            (onCommand K False c s)\<lparr>awakingRef := False, timers := []\<rparr>
        \<and> (\<forall>d. visibleOption (advance d (onInteraction (onInteraction (onCommand K False c s)))) =
                 visibleOption (onCommand K False c s))"
    if rec: "K c \<or> c = ''welcome''"
  proof -
    let ?s1 = "onCommand K False c s"
    have inv1: "timer_inv ?s1" using inv by (rule onCommand_inv)
    have aw: "awakingRef ?s1" using inv rec by (rule onCommand_fields)
    have t1: "timers ?s1 = [(nextHandle s, now s + 8000)]" using inv rec by (rule onCommand_fields)
    have i1: "onInteraction ?s1 = ?s1\<lparr>awakingRef := False\<rparr>"
      using aw by (simp add: onInteraction_def)
    have inv2: "timer_inv (?s1\<lparr>awakingRef := False\<rparr>)"
      using inv1 by (simp add: timer_inv_def)
    have i2: "onInteraction (?s1\<lparr>awakingRef := False\<rparr>) = ?s1\<lparr>awakingRef := False, timers := []\<rparr>"
      by (simp add: onInteraction_def clearTimeoutRef_clears [OF inv2])
    have adv: "visibleOption (advance d (?s1\<lparr>awakingRef := False, timers := []\<rparr>)) = visibleOption ?s1" for d
      by (simp add: advance_nil)
    show ?thesis by (simp only: i1 i2 adv) (simp add: t1)
  qed
  from a b c show ?thesis by blast
qed

theorem onInteraction_awaking_witness:
  "reachable ((=) ''stompy'') initial
   \<and> \<not> awakingRef initial \<and> onInteraction initial = initial\<lparr>timers := []\<rparr>
   \<and> timers (onInteraction (onCommand ((=) ''stompy'') False ''stompy'' initial)) = [(1, 8000)]
   \<and> timers (onInteraction (onInteraction (onCommand ((=) ''stompy'') False ''stompy'' initial))) = []
   \<and> visibleOption (advance 8000 (onInteraction (onInteraction
        (onCommand ((=) ''stompy'') False ''stompy'' initial)))) = Some KeyAmbassadors"
proof -
  let ?K = "(=) ''stompy''"
  let ?s1 = "onCommand ?K False ''stompy'' initial"
  have r: "reachable ?K initial" by (rule reachable_initial)
  have f: "\<not> awakingRef initial" by (simp add: initial_def)
  have k: "?K ''stompy'' \<or> ''stompy'' = ''welcome''" by simp
  note th = onInteraction_awaking [OF r, of "''stompy''"]
  from th f have a: "onInteraction initial = initial\<lparr>timers := []\<rparr>" by blast
  from th k have b: "timers (onInteraction ?s1) = [(nextHandle initial, now initial + 8000)]"
    by blast
  from th k have c: "onInteraction (onInteraction ?s1) = ?s1\<lparr>awakingRef := False, timers := []\<rparr>"
    by blast
  from th k have d: "visibleOption (advance 8000 (onInteraction (onInteraction ?s1))) =
      visibleOption ?s1"
    by blast
  have v: "visibleOption ?s1 = Some KeyAmbassadors"
    by (simp add: onCommand_def showCard_fields)
  from b have b': "timers (onInteraction ?s1) = [(1, 8000)]" by (simp add: initial_def)
  from c have c': "timers (onInteraction (onInteraction ?s1)) = []" by simp
  from r f a b' c' d v show ?thesis by simp
qed

lemma timer_inv_length: "timer_inv s \<Longrightarrow> length (timers s) \<le> 1"
  by (auto simp: timer_inv_def)

text \<open>
  Claim C4. In every reachable state at most one timer is pending. For two recognized
  commands 1000 units apart, the first leaves one pending timer, and after the second the
  only pending timer is the second one, due 9000 units after the first command: for any
  wait shorter than 8000 units after the second command no timer has fired and the panel of
  the second command is shown, and after 8000 units or more exactly the second timer has
  fired and the panel is closed.
\<close>

theorem single_pending_timer:
  assumes "reachable K s"
  shows "length (timers s) \<le> 1
     \<and> (K c1 \<or> c1 = ''welcome'' \<longrightarrow> K c2 \<or> c2 = ''welcome'' \<longrightarrow>
          timers (onCommand K False c1 s) = [(nextHandle s, now s + 8000)]
        \<and> timers (onCommand K False c2 (advance 1000 (onCommand K False c1 s))) =
            [(Suc (nextHandle s), now s + 9000)]
        \<and> (\<forall>d<8000.
              fired (advance d (onCommand K False c2 (advance 1000 (onCommand K False c1 s)))) =
                fired s
            \<and> visibleOption
                (advance d (onCommand K False c2 (advance 1000 (onCommand K False c1 s)))) =
                Some (if c2 = ''welcome'' then KeyWelcome else KeyAmbassadors))
        \<and> (\<forall>d\<ge>8000.
              fired (advance d (onCommand K False c2 (advance 1000 (onCommand K False c1 s)))) =
                fired s @ [Suc (nextHandle s)]
            \<and> visibleOption
                (advance d (onCommand K False c2 (advance 1000 (onCommand K False c1 s)))) =
                None))"
proof -
  from assms have inv: "timer_inv s" by (rule reachable_inv)
  have len: "length (timers s) \<le> 1" using inv by (rule timer_inv_length)
  have two: "timers (onCommand K False c1 s) = [(nextHandle s, now s + 8000)]
        \<and> timers (onCommand K False c2 (advance 1000 (onCommand K False c1 s))) =
            [(Suc (nextHandle s), now s + 9000)]
        \<and> (\<forall>d<8000.
              fired (advance d (onCommand K False c2 (advance 1000 (onCommand K False c1 s)))) =
                fired s
            \<and> visibleOption
                (advance d (onCommand K False c2 (advance 1000 (onCommand K False c1 s)))) =
                Some (if c2 = ''welcome'' then KeyWelcome else KeyAmbassadors))
        \<and> (\<forall>d\<ge>8000.
              fired (advance d (onCommand K False c2 (advance 1000 (onCommand K False c1 s)))) =
                fired s @ [Suc (nextHandle s)]
            \<and> visibleOption
                (advance d (onCommand K False c2 (advance 1000 (onCommand K False c1 s)))) =
                None)"
    if r1: "K c1 \<or> c1 = ''welcome''" and r2: "K c2 \<or> c2 = ''welcome''"
  proof -
    let ?s1 = "onCommand K False c1 s"
    let ?s2 = "advance 1000 ?s1"
    let ?s3 = "onCommand K False c2 ?s2"
    have t1: "timers ?s1 = [(nextHandle s, now s + 8000)]" using inv r1 by (rule onCommand_fields)
    have s2: "?s2 = ?s1\<lparr>now := now s + 1000\<rparr>"
      by (simp add: onCommand_advance [where K = K, OF inv r1])
    have inv2: "timer_inv ?s2" by (intro advance_inv onCommand_inv inv)
    have h2: "nextHandle ?s2 = Suc (nextHandle s)"
      by (simp add: s2 onCommand_fields [where K = K, OF inv r1])
    have n2: "now ?s2 = now s + 1000" by (simp add: s2)
    have f2: "fired ?s2 = fired s"
      by (simp add: s2 onCommand_fields [where K = K, OF inv r1])
    have t3: "timers ?s3 = [(Suc (nextHandle s), now s + 9000)]"
      by (simp add: onCommand_fields(1) [where K = K, OF inv2 r2] h2 n2)
    have v3: "visibleOption ?s3 = Some (if c2 = ''welcome'' then KeyWelcome else KeyAmbassadors)"
      using inv2 r2 by (rule onCommand_fields)
    have adv: "advance d ?s3 =
       (if 8000 \<le> d
        then ?s3\<lparr>timers := [], now := now s + 1000 + d, visibleOption := None,
               fired := fired s @ [Suc (nextHandle s)]\<rparr>
        else ?s3\<lparr>now := now s + 1000 + d\<rparr>)" for d
      by (simp only: onCommand_advance [where K = K, OF inv2 r2] h2 n2 f2)
    have f3: "fired ?s3 = fired s"
      by (simp add: onCommand_fields(4) [where K = K, OF inv2 r2] f2)
    have early: "\<forall>d<8000. fired (advance d ?s3) = fired s
            \<and> visibleOption (advance d ?s3) =
                Some (if c2 = ''welcome'' then KeyWelcome else KeyAmbassadors)"
      by (simp add: adv f3 v3)
    have late: "\<forall>d\<ge>8000. fired (advance d ?s3) = fired s @ [Suc (nextHandle s)]
            \<and> visibleOption (advance d ?s3) = None"
      by (simp add: adv)
    from t1 t3 early late show ?thesis by blast
  qed
  from len two show ?thesis by blast
qed

theorem single_pending_timer_witness:
  "reachable ((=) ''stompy'') initial
   \<and> length (timers initial) \<le> 1
   \<and> timers (onCommand ((=) ''stompy'') False ''stompy''
        (advance 1000 (onCommand ((=) ''stompy'') False ''welcome'' initial))) = [(2, 9000)]
   \<and> fired (advance 7999 (onCommand ((=) ''stompy'') False ''stompy''
        (advance 1000 (onCommand ((=) ''stompy'') False ''welcome'' initial)))) = []
   \<and> visibleOption (advance 7999 (onCommand ((=) ''stompy'') False ''stompy''
        (advance 1000 (onCommand ((=) ''stompy'') False ''welcome'' initial)))) =
       Some KeyAmbassadors
   \<and> fired (advance 8000 (onCommand ((=) ''stompy'') False ''stompy''
        (advance 1000 (onCommand ((=) ''stompy'') False ''welcome'' initial)))) = [2]
   \<and> visibleOption (advance 8000 (onCommand ((=) ''stompy'') False ''stompy''
        (advance 1000 (onCommand ((=) ''stompy'') False ''welcome'' initial)))) = None"
proof -
  let ?K = "(=) ''stompy''"
  let ?s3 = "onCommand ?K False ''stompy'' (advance 1000 (onCommand ?K False ''welcome'' initial))"
  have r: "reachable ?K initial" by (rule reachable_initial)
  have k1: "?K ''welcome'' \<or> ''welcome'' = ''welcome''" by simp
  have k2: "?K ''stompy'' \<or> ''stompy'' = ''welcome''" by simp
  note th = single_pending_timer [OF r, of "''welcome''" "''stompy''"]
  from th have l: "length (timers initial) \<le> 1" by blast
  from th k1 k2 have t: "timers ?s3 = [(Suc (nextHandle initial), now initial + 9000)]"
    by blast
  from th k1 k2 have e: "\<forall>d<8000. fired (advance d ?s3) = fired initial
      \<and> visibleOption (advance d ?s3) =
          Some (if ''stompy'' = ''welcome'' then KeyWelcome else KeyAmbassadors)"
    by blast
  from th k1 k2 have g: "\<forall>d\<ge>8000. fired (advance d ?s3) = fired initial @ [Suc (nextHandle initial)]
      \<and> visibleOption (advance d ?s3) = None"
    by blast
  from e have e': "fired (advance 7999 ?s3) = [] \<and> visibleOption (advance 7999 ?s3) = Some KeyAmbassadors"
    by (simp add: initial_def)
  from g have g': "fired (advance 8000 ?s3) = [2] \<and> visibleOption (advance 8000 ?s3) = None"
    by (simp add: initial_def)
  from t have t': "timers ?s3 = [(2, 9000)]" by (simp add: initial_def)
  from r l t' e' g' show ?thesis by simp
qed

text \<open>
  Claim C8. In a reachable state, unmounting empties the timer queue and changes nothing
  else, and any wait after it only moves the clock: no timer fires and \<open>visibleOption\<close>
  stays as it was at the unmount.
\<close>

theorem unmount_cancels:
  assumes "reachable K s"
  shows "unmount s = s\<lparr>timers := []\<rparr>
     \<and> (\<forall>d. advance d (unmount s) = s\<lparr>timers := [], now := now s + d\<rparr>
           \<and> visibleOption (advance d (unmount s)) = visibleOption s
           \<and> fired (advance d (unmount s)) = fired s)"
proof -
  from assms have inv: "timer_inv s" by (rule reachable_inv)
  then have u: "unmount s = s\<lparr>timers := []\<rparr>"
    by (simp add: unmount_def clearTimeoutRef_clears)
  show ?thesis by (simp add: u advance_nil)
qed

theorem unmount_cancels_witness:
  "reachable ((=) ''stompy'') (onCommand ((=) ''stompy'') False ''welcome'' initial)
   \<and> timers (onCommand ((=) ''stompy'') False ''welcome'' initial) = [(1, 8000)]
   \<and> timers (unmount (onCommand ((=) ''stompy'') False ''welcome'' initial)) = []
   \<and> visibleOption (advance 9000 (unmount (onCommand ((=) ''stompy'') False ''welcome'' initial)))
       = Some KeyWelcome
   \<and> visibleOption (advance 9000 (onCommand ((=) ''stompy'') False ''welcome'' initial)) = None"
proof -
  let ?K = "(=) ''stompy''"
  let ?s1 = "onCommand ?K False ''welcome'' initial"
  have "reachable ?K (step ?K (Command False ''welcome'') initial)"
    by (intro reachable_step reachable_initial)
  then have r: "reachable ?K ?s1" by simp
  have e: "?s1 = \<lparr> commandAmbassador = None, visibleOption = Some KeyWelcome,
     timeoutRef = Some 1, awakingRef = True, timers = [(1, 8000)], nextHandle = 2, now = 0,
     wakeCalls = [8000], fired = [] \<rparr>"
    by (simp add: onCommand_def showCard_def clearTimeoutRef_def setTimeout_def wake_def
        commandDelay_def initial_def)
  note th = unmount_cancels [OF r]
  from th have a: "timers (unmount ?s1) = []" by simp
  from th have b: "visibleOption (advance 9000 (unmount ?s1)) = visibleOption ?s1" by blast
  have c: "visibleOption (advance 9000 ?s1) = None"
    by (simp add: e advance_def timerCallback_def)
  from r a b c show ?thesis by (simp add: e)
qed

lemma clearTimeout_absent: "h \<notin> fst ` set (timers s) \<Longrightarrow> clearTimeout h s = s"
proof -
  assume "h \<notin> fst ` set (timers s)"
  then have "filter (\<lambda>t. fst t \<noteq> h) (timers s) = timers s"
    by (induction "timers s") (auto simp: filter_id_conv)
  then show ?thesis by (simp add: clearTimeout_def)
qed

subsection \<open>Cancelling twice\<close>

text \<open>
  Claim C9. \<open>clearTimeout\<close> of a handle that is not pending (its timer has fired or was
  cancelled) changes nothing, and cancelling twice is cancelling once. An interaction
  that arrives with \<open>awakingRef\<close> unset, when the timer held by \<open>timeoutRef\<close> is no longer
  pending, changes nothing; in particular the interaction after a recognized command,
  one interaction and a wait of 8000 units or more.
\<close>

theorem clearTimeout_idempotent:
  "(h \<notin> fst ` set (timers s) \<longrightarrow> clearTimeout h s = s)
   \<and> clearTimeout h (clearTimeout h s) = clearTimeout h s
   \<and> clearTimeoutRef (clearTimeoutRef s) = clearTimeoutRef s
   \<and> (\<not> awakingRef s \<and> (\<forall>k. timeoutRef s = Some k \<longrightarrow> k \<notin> fst ` set (timers s)) \<longrightarrow>
        onInteraction s = s)
   \<and> (reachable K s \<and> (K c \<or> c = ''welcome'') \<and> 8000 \<le> d \<longrightarrow>
        onInteraction (advance d (onInteraction (onCommand K False c s))) =
          advance d (onInteraction (onCommand K False c s)))"
proof -
  have a: "h \<notin> fst ` set (timers s) \<longrightarrow> clearTimeout h s = s"
    by (simp add: clearTimeout_absent)
  have b: "clearTimeout h (clearTimeout h s) = clearTimeout h s" for h s
    by (simp add: clearTimeout_def)
  have c: "clearTimeoutRef (clearTimeoutRef s) = clearTimeoutRef s"
    by (cases "timeoutRef s") (simp_all add: clearTimeoutRef_def b, simp add: clearTimeout_def)
  have d: "\<not> awakingRef s \<and> (\<forall>k. timeoutRef s = Some k \<longrightarrow> k \<notin> fst ` set (timers s)) \<longrightarrow>
        onInteraction s = s"
    by (cases "timeoutRef s") (simp_all add: onInteraction_def clearTimeoutRef_def clearTimeout_absent)
  have e: "onInteraction (advance d (onInteraction (onCommand K False c s))) =
          advance d (onInteraction (onCommand K False c s))"
    if r: "reachable K s" and k: "K c \<or> c = ''welcome''" and late: "8000 \<le> d"
  proof -
    let ?s1 = "onCommand K False c s"
    from r have inv: "timer_inv s" by (rule reachable_inv)
    have aw: "awakingRef ?s1" using inv k by (rule onCommand_fields)
    have t1: "timers ?s1 = [(nextHandle s, now s + 8000)]" using inv k by (rule onCommand_fields)
    have n1: "now ?s1 = now s" using inv k by (rule onCommand_fields)
    have i1: "onInteraction ?s1 = ?s1\<lparr>awakingRef := False\<rparr>"
      using aw by (simp add: onInteraction_def)
    have t2: "timers (?s1\<lparr>awakingRef := False\<rparr>) = [(nextHandle s, now s + 8000)]"
      by (simp add: t1)
    have adv: "advance d (?s1\<lparr>awakingRef := False\<rparr>) =
        ?s1\<lparr>awakingRef := False, timers := [], now := now s + d, visibleOption := None,
            fired := fired ?s1 @ [nextHandle s]\<rparr>"
      using late by (simp add: advance_single [OF t2] n1)
    show ?thesis
      by (simp only: i1 adv) (simp add: onInteraction_def clearTimeoutRef_def clearTimeout_def
          split: option.splits)
  qed
  from a b c d e show ?thesis by blast
qed

theorem clearTimeout_idempotent_witness:
  "reachable ((=) ''stompy'') initial
   \<and> 1 \<notin> fst ` set (timers initial)
   \<and> clearTimeout 1 initial = initial
   \<and> \<not> awakingRef initial
   \<and> onInteraction initial = initial
   \<and> fired (advance 8000 (onInteraction (onCommand ((=) ''stompy'') False ''welcome'' initial))) = [1]
   \<and> onInteraction (advance 8000 (onInteraction (onCommand ((=) ''stompy'') False ''welcome'' initial)))
      = advance 8000 (onInteraction (onCommand ((=) ''stompy'') False ''welcome'' initial))"
proof -
  let ?K = "(=) ''stompy''"
  let ?s1 = "onCommand ?K False ''welcome'' initial"
  have r: "reachable ?K initial" by (rule reachable_initial)
  have n: "1 \<notin> fst ` set (timers initial)" by (simp add: initial_def)
  have f: "\<not> awakingRef initial" by (simp add: initial_def)
  have g: "\<forall>k. timeoutRef initial = Some k \<longrightarrow> k \<notin> fst ` set (timers initial)"
    by (simp add: initial_def)
  have k: "?K ''welcome'' \<or> ''welcome'' = ''welcome''" by simp
  have l: "(8000::nat) \<le> 8000" by simp
  note th = clearTimeout_idempotent [of 1 initial ?K "''welcome''" 8000]
  from th n have a: "clearTimeout 1 initial = initial" by blast
  from th f g have b: "onInteraction initial = initial" by blast
  from th r k l have c: "onInteraction (advance 8000 (onInteraction ?s1)) =
      advance 8000 (onInteraction ?s1)"
    by blast
  have e: "?s1 = \<lparr> commandAmbassador = None, visibleOption = Some KeyWelcome,
     timeoutRef = Some 1, awakingRef = True, timers = [(1, 8000)], nextHandle = 2, now = 0,
     wakeCalls = [8000], fired = [] \<rparr>"
    by (simp add: onCommand_def showCard_def clearTimeoutRef_def setTimeout_def wake_def
        commandDelay_def initial_def)
  have d: "fired (advance 8000 (onInteraction ?s1)) = [1]"
    by (simp add: e onInteraction_def advance_def timerCallback_def)
  from r n a f b c d show ?thesis by simp
qed

subsection \<open>The command subject\<close>

lemma fold_timerCallback_commandAmbassador:
  "commandAmbassador (fold (\<lambda>p. timerCallback (fst p)) ps s) = commandAmbassador s"
  by (induction ps arbitrary: s) (simp_all add: timerCallback_def)

lemma advance_commandAmbassador: "commandAmbassador (advance d s) = commandAmbassador s"
  by (simp add: advance_def Let_def fold_timerCallback_commandAmbassador)

lemma fold_timerCallback_refs:
  "timeoutRef (fold (\<lambda>p. timerCallback (fst p)) ps s) = timeoutRef s"
  "awakingRef (fold (\<lambda>p. timerCallback (fst p)) ps s) = awakingRef s"
  by (induction ps arbitrary: s) (simp_all add: timerCallback_def)

lemma advance_refs:
  "timeoutRef (advance d s) = timeoutRef s"
  "awakingRef (advance d s) = awakingRef s"
  by (simp_all add: advance_def Let_def fold_timerCallback_refs)

lemma bodyClick_commandAmbassador: "commandAmbassador (bodyClick els s) = commandAmbassador s"
  by (simp add: bodyClick_def)

lemma step_commandAmbassador:
  "commandAmbassador (step K e s) = recorded K (commandAmbassador s) e"
proof (cases e)
  case (Command dis c)
  then show ?thesis by (simp add: onCommand_def showCard_fields)
next
  case Interaction
  then show ?thesis by (simp add: onInteraction_def clearTimeoutRef_fields)
next
  case (BodyClick els)
  then show ?thesis by (simp add: bodyClick_commandAmbassador)
next
  case (SetVisibleOption k)
  then show ?thesis by simp
next
  case (Wait d)
  then show ?thesis by (simp add: advance_commandAmbassador)
next
  case Unmount
  then show ?thesis by (simp add: unmount_def clearTimeoutRef_fields)
qed

lemma run_commandAmbassador:
  "commandAmbassador (run K evs s) = foldl (recorded K) (commandAmbassador s) evs"
  unfolding run_def
  by (induction evs arbitrary: s) (simp_all add: step_commandAmbassador)

text \<open>
  Claim C10. The timer's callback, any wait and any body click leave
  \<open>commandAmbassador\<close> (and the two refs) as they were; a body click changes at most
  \<open>visibleOption\<close>, to \<open>undefined\<close>. After any run of events \<open>commandAmbassador\<close> is the
  last ambassador key that the command callback recorded.
\<close>

theorem dismiss_keeps_commandAmbassador:
  "commandAmbassador (timerCallback h s) = commandAmbassador s
   \<and> timeoutRef (timerCallback h s) = timeoutRef s
   \<and> awakingRef (timerCallback h s) = awakingRef s
   \<and> commandAmbassador (advance d s) = commandAmbassador s
   \<and> timeoutRef (advance d s) = timeoutRef s
   \<and> awakingRef (advance d s) = awakingRef s
   \<and> (bodyClick els s = s \<or> bodyClick els s = s\<lparr>visibleOption := None\<rparr>)
   \<and> commandAmbassador (bodyClick els s) = commandAmbassador s
   \<and> commandAmbassador (run K evs s) = foldl (recorded K) (commandAmbassador s) evs"
  by (simp add: advance_commandAmbassador advance_refs bodyClick_commandAmbassador
      run_commandAmbassador timerCallback_def) (simp add: bodyClick_def)

theorem dismiss_keeps_commandAmbassador_witness:
  "visibleOption (run ((=) ''stompy'') [Command False ''stompy'', Wait 8000] initial) = None
   \<and> commandAmbassador (run ((=) ''stompy'') [Command False ''stompy'', Wait 8000] initial)
       = Some ''stompy''
   \<and> commandAmbassador (run ((=) ''stompy'')
        [Command False ''stompy'', BodyClick [], Command False ''welcome'', Wait 8000,
         SetVisibleOption (Some KeyAmbassadors)] initial) = Some ''stompy''"
proof -
  let ?K = "(=) ''stompy''"
  have e: "onCommand ?K False ''stompy'' initial = \<lparr> commandAmbassador = Some ''stompy'',
     visibleOption = Some KeyAmbassadors,
     timeoutRef = Some 1, awakingRef = True, timers = [(1, 8000)], nextHandle = 2, now = 0,
     wakeCalls = [8000], fired = [] \<rparr>"
    by (simp add: onCommand_def showCard_def clearTimeoutRef_def setTimeout_def wake_def
        commandDelay_def initial_def)
  have v: "visibleOption (run ?K [Command False ''stompy'', Wait 8000] initial) = None"
    by (simp add: run_def e advance_def timerCallback_def)
  have c0: "commandAmbassador initial = None" by (simp add: initial_def)
  from dismiss_keeps_commandAmbassador [of 0 initial 0 "[]" ?K "[Command False ''stompy'', Wait 8000]"]
  have a: "commandAmbassador (run ?K [Command False ''stompy'', Wait 8000] initial) = Some ''stompy''"
    by (simp add: c0)
  from dismiss_keeps_commandAmbassador [of 0 initial 0 "[]" ?K
      "[Command False ''stompy'', BodyClick [], Command False ''welcome'', Wait 8000,
         SetVisibleOption (Some KeyAmbassadors)]"]
  have b: "commandAmbassador (run ?K
        [Command False ''stompy'', BodyClick [], Command False ''welcome'', Wait 8000,
         SetVisibleOption (Some KeyAmbassadors)] initial) = Some ''stompy''"
    by (simp add: c0)
  from v a b show ?thesis by simp
qed

end
